theory Spec2Isabelle
  imports Main "HOL-Library.Word"
begin

section \<open>Data model of \<^verbatim>\<open>src/txn/lock_manager.cc\<close>\<close>

text \<open>
  A transaction is known to the lock manager only through its address (\<^verbatim>\<open>Txn*\<close>), which
  is compared and used as a map key and never dereferenced: it is a natural number here.
  The type \<^verbatim>\<open>Key\<close> is declared in a header that is not part of the sources; the lock manager
  only hashes and compares it, so it is the type parameter \<open>'k\<close>.
\<close>

type_synonym Txn = nat

type_synonym counter = "32 word"

datatype LockMode = UNLOCKED | SHARED | EXCLUSIVE

record LockRequest =
  mode :: LockMode
  txn_of :: Txn

text \<open>
  The three members of a lock manager (the sources end each member's name with an
  underscore, which Isabelle keeps for internal names: it is dropped here, and the request's
  \<^verbatim>\<open>txn_\<close> is \<open>txn_of\<close>). \<open>lock_table\<close> maps a key to a pointer to a deque
  of its own (allocated by the first request for the key, shared with nothing), so the
  deque is stored in the map directly, in arrival order. \<open>txn_waits\<close> maps a transaction
  to its counter. The members are declared in \<^verbatim>\<open>txn/lock_manager.h\<close>, which is not among
  the sources; the code assigns 0 to a counter, increments and decrements it and compares
  it with 0, and the counter is taken as a signed \<^verbatim>\<open>int\<close> of 32 bits. It is the type
  \<open>counter\<close>, a word of 32 bits read as a signed number by \<open>sint\<close>: \<open>- 1\<close> is the counter
  below 0, a decrement of the least value \<open>- 2 ^ 31\<close> gives the greatest \<open>2 ^ 31 - 1\<close>, and
  an increment of the greatest gives the least. (C++ leaves the overflow of a signed
  \<^verbatim>\<open>int\<close> undefined; the model takes the two's complement result of the compiled code.)
  \<open>ready_txns\<close> points to the scheduler's deque, to which the lock manager only
  appends.
\<close>

record 'k LockManager =
  lock_table :: "'k \<rightharpoonup> LockRequest list"
  txn_waits :: "Txn \<rightharpoonup> counter"
  ready_txns :: "Txn list"

text \<open>The constructor: empty maps, and here an empty deque of ready transactions.\<close>

definition LockManager_new :: "'k LockManager" where
  "LockManager_new = \<lparr>lock_table = Map.empty, txn_waits = Map.empty, ready_txns = []\<rparr>"

text \<open>
  \<^verbatim>\<open>txn_waits_[txn]++\<close>: \<^verbatim>\<open>operator[]\<close> inserts the value 0 for a missing transaction
  before the increment. The increment is that of the 32-bit word: it wraps.
\<close>

definition waits_incr :: "(Txn \<rightharpoonup> counter) \<Rightarrow> Txn \<Rightarrow> (Txn \<rightharpoonup> counter)" where
  "waits_incr waits txn = waits(txn \<mapsto> (case waits txn of None \<Rightarrow> 0 | Some c \<Rightarrow> c) + 1)"

text \<open>
  The loop \<^verbatim>\<open>for (it = begin; it != end; it++) if (it->txn_ == txn) { erase(it); break; }\<close>:
  the first request of \<open>txn\<close> is removed, a queue without one is left as it is.
\<close>

fun erase_txn :: "Txn \<Rightarrow> LockRequest list \<Rightarrow> LockRequest list" where
  "erase_txn txn [] = []"
| "erase_txn txn (r # rest) = (if txn_of r = txn then rest else r # erase_txn txn rest)"

section \<open>Variant A: \<^verbatim>\<open>LockManagerA\<close>\<close>

definition LockManagerA_WriteLock :: "'k LockManager \<Rightarrow> Txn \<Rightarrow> 'k \<Rightarrow> bool \<times> 'k LockManager" where
  "LockManagerA_WriteLock lm txn key =
     (case lock_table lm key of
        None \<Rightarrow>
          (True, lm\<lparr>lock_table := (lock_table lm)(key \<mapsto> [\<lparr>mode = EXCLUSIVE, txn_of = txn\<rparr>]),
                    txn_waits := (txn_waits lm)(txn \<mapsto> 0)\<rparr>)
      | Some lock_deq \<Rightarrow>
          (let lock_deq' = lock_deq @ [\<lparr>mode = EXCLUSIVE, txn_of = txn\<rparr>];
               lm' = lm\<lparr>lock_table := (lock_table lm)(key \<mapsto> lock_deq')\<rparr>
           in if length lock_deq' = 1
              then (True, lm'\<lparr>txn_waits := (txn_waits lm)(txn \<mapsto> 0)\<rparr>)
              else (False, lm'\<lparr>txn_waits := waits_incr (txn_waits lm) txn\<rparr>)))"

definition LockManagerA_ReadLock :: "'k LockManager \<Rightarrow> Txn \<Rightarrow> 'k \<Rightarrow> bool \<times> 'k LockManager" where
  "LockManagerA_ReadLock lm txn key = LockManagerA_WriteLock lm txn key"

text \<open>
  The \<^verbatim>\<open>while (lock_deq->size() > 0)\<close> loop of \<^verbatim>\<open>LockManagerA::Release\<close>: a front request
  whose transaction has no entry in \<open>txn_waits\<close> is popped; the first one that has an entry
  is decremented, pushed to the ready deque when the counter is 0 after that, and ends the
  loop. The decrement \<^verbatim>\<open>--txn_waits_[...]\<close> is that of the 32-bit word: it wraps. The
  result is the deque, the counters and the ready deque.
\<close>

fun A_Release_loop ::
  "LockRequest list \<Rightarrow> (Txn \<rightharpoonup> counter) \<Rightarrow> Txn list \<Rightarrow> LockRequest list \<times> (Txn \<rightharpoonup> counter) \<times> Txn list" where
  "A_Release_loop [] waits ready = ([], waits, ready)"
| "A_Release_loop (r # rest) waits ready =
     (case waits (txn_of r) of
        None \<Rightarrow> A_Release_loop rest waits ready
      | Some c \<Rightarrow>
          (r # rest, waits(txn_of r \<mapsto> c - 1), if c - 1 = 0 then ready @ [txn_of r] else ready))"

definition LockManagerA_Release :: "'k LockManager \<Rightarrow> Txn \<Rightarrow> 'k \<Rightarrow> 'k LockManager" where
  "LockManagerA_Release lm txn key =
     (case lock_table lm key of
        None \<Rightarrow> lm
      | Some [] \<Rightarrow> lm
      | Some (front # rest) \<Rightarrow>
          if txn_of front \<noteq> txn
          then lm\<lparr>lock_table := (lock_table lm)(key \<mapsto> erase_txn txn (front # rest)),
                  txn_waits := (txn_waits lm)(txn := None)\<rparr>
          else if length rest = 0
          then lm\<lparr>lock_table := (lock_table lm)(key := None)\<rparr>
          else (case A_Release_loop rest (txn_waits lm) (ready_txns lm) of
                  (lock_deq, waits, ready) \<Rightarrow>
                    lm\<lparr>lock_table := (lock_table lm)(key \<mapsto> lock_deq),
                       txn_waits := waits, ready_txns := ready\<rparr>))"

text \<open>\<^verbatim>\<open>Status\<close> clears \<^verbatim>\<open>owners\<close> and fills it: the vector is the second component.\<close>

definition LockManagerA_Status :: "'k LockManager \<Rightarrow> 'k \<Rightarrow> LockMode \<times> Txn list" where
  "LockManagerA_Status lm key =
     (case lock_table lm key of
        None \<Rightarrow> (UNLOCKED, [])
      | Some [] \<Rightarrow> (UNLOCKED, [])
      | Some (lock # rest) \<Rightarrow> (EXCLUSIVE, [txn_of lock]))"

section \<open>Variant B: \<^verbatim>\<open>LockManagerB\<close>\<close>

definition LockManagerB_WriteLock :: "'k LockManager \<Rightarrow> Txn \<Rightarrow> 'k \<Rightarrow> bool \<times> 'k LockManager" where
  "LockManagerB_WriteLock lm txn key =
     (case lock_table lm key of
        None \<Rightarrow>
          (True, lm\<lparr>lock_table := (lock_table lm)(key \<mapsto> [\<lparr>mode = EXCLUSIVE, txn_of = txn\<rparr>]),
                    txn_waits := (txn_waits lm)(txn \<mapsto> 0)\<rparr>)
      | Some lock_deq \<Rightarrow>
          (let lock_deq' = lock_deq @ [\<lparr>mode = EXCLUSIVE, txn_of = txn\<rparr>];
               lm' = lm\<lparr>lock_table := (lock_table lm)(key \<mapsto> lock_deq')\<rparr>
           in if length lock_deq' = 1
              then (True, lm'\<lparr>txn_waits := (txn_waits lm)(txn \<mapsto> 0)\<rparr>)
              else (False, lm'\<lparr>txn_waits := waits_incr (txn_waits lm) txn\<rparr>)))"

text \<open>
  The scan of \<^verbatim>\<open>LockManagerB::ReadLock\<close> for a request of mode \<^verbatim>\<open>EXCLUSIVE\<close>, from the
  front of the deque: it returns at the first one.
\<close>

fun has_exclusive :: "LockRequest list \<Rightarrow> bool" where
  "has_exclusive [] = False"
| "has_exclusive (r # rest) = (if mode r = EXCLUSIVE then True else has_exclusive rest)"

definition LockManagerB_ReadLock :: "'k LockManager \<Rightarrow> Txn \<Rightarrow> 'k \<Rightarrow> bool \<times> 'k LockManager" where
  "LockManagerB_ReadLock lm txn key =
     (case lock_table lm key of
        None \<Rightarrow>
          (True, lm\<lparr>lock_table := (lock_table lm)(key \<mapsto> [\<lparr>mode = SHARED, txn_of = txn\<rparr>]),
                    txn_waits := (txn_waits lm)(txn \<mapsto> 0)\<rparr>)
      | Some lock_deq \<Rightarrow>
          (let lock_deq' = lock_deq @ [\<lparr>mode = SHARED, txn_of = txn\<rparr>];
               lm' = lm\<lparr>lock_table := (lock_table lm)(key \<mapsto> lock_deq')\<rparr>
           in if length lock_deq' = 1
              then (True, lm'\<lparr>txn_waits := (txn_waits lm)(txn \<mapsto> 0)\<rparr>)
              else if has_exclusive lock_deq'
              then (False, lm'\<lparr>txn_waits := waits_incr (txn_waits lm) txn\<rparr>)
              else (True, lm'\<lparr>txn_waits := (txn_waits lm)(txn \<mapsto> 0)\<rparr>)))"

text \<open>
  The loop of \<^verbatim>\<open>LockManagerB::Status\<close> over a deque whose front is not exclusive:
  it collects transactions up to the first exclusive request or the end.
\<close>

fun shared_owners :: "LockRequest list \<Rightarrow> Txn list" where
  "shared_owners [] = []"
| "shared_owners (r # rest) = (if mode r \<noteq> EXCLUSIVE then txn_of r # shared_owners rest else [])"

definition LockManagerB_Status :: "'k LockManager \<Rightarrow> 'k \<Rightarrow> LockMode \<times> Txn list" where
  "LockManagerB_Status lm key =
     (case lock_table lm key of
        None \<Rightarrow> (UNLOCKED, [])
      | Some [] \<Rightarrow> (UNLOCKED, [])
      | Some (r # rest) \<Rightarrow>
          if mode r = EXCLUSIVE then (EXCLUSIVE, [txn_of r])
          else (SHARED, shared_owners (r # rest)))"

text \<open>
  The loop \<^verbatim>\<open>for (auto owner : owners)\<close> of \<^verbatim>\<open>LockManagerB::Release\<close>: an owner found in
  \<open>txn_waits\<close> is decremented in place (\<^verbatim>\<open>--(txn->second)\<close>, the decrement of the 32-bit
  word, which wraps); when the counter is 0 after that, the owner is pushed to the ready
  deque and its entry erased.
\<close>

fun B_Release_owners :: "Txn list \<Rightarrow> (Txn \<rightharpoonup> counter) \<Rightarrow> Txn list \<Rightarrow> (Txn \<rightharpoonup> counter) \<times> Txn list" where
  "B_Release_owners [] waits ready = (waits, ready)"
| "B_Release_owners (owner # owners) waits ready =
     (case waits owner of
        None \<Rightarrow> B_Release_owners owners waits ready
      | Some c \<Rightarrow>
          if c - 1 = 0
          then B_Release_owners owners (waits(owner := None)) (ready @ [owner])
          else B_Release_owners owners (waits(owner \<mapsto> c - 1)) ready)"

text \<open>
  \<^verbatim>\<open>LockManagerB::Release\<close> starts with \<^verbatim>\<open>lock_table_[key]\<close> and no test: for a key without
  an entry \<^verbatim>\<open>operator[]\<close> inserts a null pointer, and \<^verbatim>\<open>lock_deq->begin()\<close> dereferences
  it. That is the fault of the model.
\<close>

datatype fault = NullDequeDereference

definition LockManagerB_Release :: "'k LockManager \<Rightarrow> Txn \<Rightarrow> 'k \<Rightarrow> fault + 'k LockManager" where
  "LockManagerB_Release lm txn key =
     (case lock_table lm key of
        None \<Rightarrow> Inl NullDequeDereference
      | Some lock_deq \<Rightarrow>
          (let lm' = lm\<lparr>lock_table := (lock_table lm)(key \<mapsto> erase_txn txn lock_deq)\<rparr>;
               owners = snd (LockManagerB_Status lm' key)
           in case B_Release_owners owners (txn_waits lm') (ready_txns lm') of
                (waits, ready) \<Rightarrow> Inr (lm'\<lparr>txn_waits := waits, ready_txns := ready\<rparr>)))"

section \<open>Sequences of calls\<close>

datatype 'k call = WriteLock Txn 'k | ReadLock Txn 'k | Release Txn 'k

fun A_call :: "'k LockManager \<Rightarrow> 'k call \<Rightarrow> 'k LockManager" where
  "A_call lm (WriteLock txn key) = snd (LockManagerA_WriteLock lm txn key)"
| "A_call lm (ReadLock txn key) = snd (LockManagerA_ReadLock lm txn key)"
| "A_call lm (Release txn key) = LockManagerA_Release lm txn key"

fun A_run :: "'k LockManager \<Rightarrow> 'k call list \<Rightarrow> 'k LockManager" where
  "A_run lm [] = lm"
| "A_run lm (c # cs) = A_run (A_call lm c) cs"

fun B_call :: "'k LockManager \<Rightarrow> 'k call \<Rightarrow> fault + 'k LockManager" where
  "B_call lm (WriteLock txn key) = Inr (snd (LockManagerB_WriteLock lm txn key))"
| "B_call lm (ReadLock txn key) = Inr (snd (LockManagerB_ReadLock lm txn key))"
| "B_call lm (Release txn key) = LockManagerB_Release lm txn key"

fun B_run :: "'k LockManager \<Rightarrow> 'k call list \<Rightarrow> fault + 'k LockManager" where
  "B_run lm [] = Inr lm"
| "B_run lm (c # cs) = (case B_call lm c of Inl f \<Rightarrow> Inl f | Inr lm' \<Rightarrow> B_run lm' cs)"

section \<open>Notions used in the statements\<close>

text \<open>The deque of a key, empty for a key without an entry.\<close>

definition queue_of :: "'k LockManager \<Rightarrow> 'k \<Rightarrow> LockRequest list" where
  "queue_of lm key = (case lock_table lm key of None \<Rightarrow> [] | Some lock_deq \<Rightarrow> lock_deq)"

text \<open>The invariant of the lock table: no key is mapped to an empty deque.\<close>

definition no_empty_queue :: "'k LockManager \<Rightarrow> bool" where
  "no_empty_queue lm = (\<forall>key. lock_table lm key \<noteq> Some [])"


definition no_pending :: "(Txn \<rightharpoonup> counter) \<Rightarrow> Txn \<Rightarrow> bool" where
  "no_pending waits u = (case waits u of None \<Rightarrow> True | Some c \<Rightarrow> sint c \<le> 0)"



section \<open>Unfolding the operations\<close>

lemmas A_defs =
  LockManagerA_WriteLock_def LockManagerA_ReadLock_def LockManagerA_Release_def
  LockManagerA_Status_def waits_incr_def LockManager_new_def

lemmas B_defs =
  LockManagerB_WriteLock_def LockManagerB_ReadLock_def LockManagerB_Release_def
  LockManagerB_Status_def waits_incr_def LockManager_new_def

section \<open>The two scenarios\<close>

text \<open>
  C5. Variant A, from a new lock manager, with the transactions 1 and 2 and the key
  \<open>''a''\<close>: \<open>WriteLock(1, a)\<close> returns true, \<open>WriteLock(2, a)\<close> then returns false,
  \<open>Release(1, a)\<close> then leaves exactly transaction 2 in the ready deque (it was empty before
  the release), and \<open>Status(a)\<close> after that is \<open>EXCLUSIVE\<close> with the owners \<open>[2]\<close>.
\<close>

theorem scenario_A_write_write_release:
  "fst (LockManagerA_WriteLock (LockManager_new :: string LockManager) 1 ''a'') = True
   \<and> fst (LockManagerA_WriteLock (A_run LockManager_new [WriteLock 1 ''a'']) 2 ''a'') = False
   \<and> ready_txns (A_run (LockManager_new :: string LockManager)
        [WriteLock 1 ''a'', WriteLock 2 ''a'']) = []
   \<and> ready_txns (A_run (LockManager_new :: string LockManager)
        [WriteLock 1 ''a'', WriteLock 2 ''a'', Release 1 ''a'']) = [2]
   \<and> LockManagerA_Status (A_run LockManager_new
        [WriteLock 1 ''a'', WriteLock 2 ''a'', Release 1 ''a'']) ''a'' = (EXCLUSIVE, [2])"
  by (simp add: A_defs)

text \<open>
  C4. Variant B, from a new lock manager, with the transactions 1, 2, 3 and the key
  \<open>''a''\<close>: the two \<open>ReadLock\<close> calls of 1 and 2 return true, \<open>WriteLock(3, a)\<close> returns
  false; after \<open>Release(1, a)\<close> the status of \<open>a\<close> is \<open>SHARED\<close> with the owners \<open>[2]\<close> and
  the ready deque is still empty; after \<open>Release(2, a)\<close> the ready deque is \<open>[3]\<close> and the
  status of \<open>a\<close> is \<open>EXCLUSIVE\<close> with the owners \<open>[3]\<close>. No call of the scenario faults.
\<close>

theorem scenario_B_read_read_write_release:
  "fst (LockManagerB_ReadLock (LockManager_new :: string LockManager) 1 ''a'') = True
   \<and> (case B_run LockManager_new [ReadLock 1 ''a''] of
        Inl f \<Rightarrow> False
      | Inr lm \<Rightarrow> fst (LockManagerB_ReadLock lm 2 ''a'') = True)
   \<and> (case B_run LockManager_new [ReadLock 1 ''a'', ReadLock 2 ''a''] of
        Inl f \<Rightarrow> False
      | Inr lm \<Rightarrow> fst (LockManagerB_WriteLock lm 3 ''a'') = False)
   \<and> (case B_run LockManager_new
          [ReadLock 1 ''a'', ReadLock 2 ''a'', WriteLock 3 ''a'', Release 1 ''a''] of
        Inl f \<Rightarrow> False
      | Inr lm \<Rightarrow> LockManagerB_Status lm ''a'' = (SHARED, [2]) \<and> ready_txns lm = [])
   \<and> (case B_run LockManager_new
          [ReadLock 1 ''a'', ReadLock 2 ''a'', WriteLock 3 ''a'', Release 1 ''a'', Release 2 ''a''] of
        Inl f \<Rightarrow> False
      | Inr lm \<Rightarrow> ready_txns lm = [3] \<and> LockManagerB_Status lm ''a'' = (EXCLUSIVE, [3]))"
  by (simp add: B_defs)

section \<open>Release of a key without an entry\<close>

lemma LockManagerA_Release_no_entry:
  "lock_table lm key = None \<Longrightarrow> LockManagerA_Release lm txn key = lm"
  by (simp add: LockManagerA_Release_def)

lemma LockManagerB_Release_no_entry:
  "lock_table lm key = None \<Longrightarrow> LockManagerB_Release lm txn key = Inl NullDequeDereference"
  by (simp add: LockManagerB_Release_def)

text \<open>
  C3. On a new lock manager, where the key \<open>''a''\<close> has no entry, \<open>Release(1, a)\<close> of
  Variant A returns the lock manager unchanged, and \<open>Release(1, a)\<close> of Variant B faults: it
  dereferences the null pointer that \<^verbatim>\<open>lock_table_[key]\<close> has just inserted.
\<close>

theorem Release_no_entry_A_noop_B_faults:
  "LockManagerA_Release (LockManager_new :: string LockManager) 1 ''a'' = LockManager_new
   \<and> LockManagerB_Release (LockManager_new :: string LockManager) 1 ''a''
       = Inl NullDequeDereference"
  by (simp add: LockManagerA_Release_def LockManagerB_Release_def LockManager_new_def)

section \<open>What a lock request does\<close>

text \<open>
  \<open>WriteLock\<close> is the same function in both variants; it appends one exclusive request
  to the key's deque (an empty one when the key has no entry), changes no other deque and
  never touches the ready deque.
\<close>

lemma LockManagerB_WriteLock_eq_A: "LockManagerB_WriteLock lm txn key = LockManagerA_WriteLock lm txn key"
  by (simp add: LockManagerB_WriteLock_def LockManagerA_WriteLock_def)

lemma A_WriteLock_lock_table:
  "lock_table (snd (LockManagerA_WriteLock lm txn key))
     = (lock_table lm)(key \<mapsto> queue_of lm key @ [\<lparr>mode = EXCLUSIVE, txn_of = txn\<rparr>])"
  by (simp add: LockManagerA_WriteLock_def queue_of_def Let_def split: option.split)


lemma A_WriteLock_granted:
  "fst (LockManagerA_WriteLock lm txn key) = (queue_of lm key = [])"
  by (simp add: LockManagerA_WriteLock_def queue_of_def Let_def split: option.split)

lemma A_WriteLock_waits:
  "txn_waits (snd (LockManagerA_WriteLock lm txn key))
     = (if queue_of lm key = [] then (txn_waits lm)(txn \<mapsto> 0) else waits_incr (txn_waits lm) txn)"
  by (simp add: LockManagerA_WriteLock_def queue_of_def Let_def split: option.split)

lemma has_exclusive_iff: "has_exclusive q = (\<exists>r \<in> set q. mode r = EXCLUSIVE)"
  by (induction q) auto

lemma B_ReadLock_lock_table:
  "lock_table (snd (LockManagerB_ReadLock lm txn key))
     = (lock_table lm)(key \<mapsto> queue_of lm key @ [\<lparr>mode = SHARED, txn_of = txn\<rparr>])"
  by (simp add: LockManagerB_ReadLock_def queue_of_def Let_def split: option.split)

lemma B_ReadLock_ready: "ready_txns (snd (LockManagerB_ReadLock lm txn key)) = ready_txns lm"
  by (simp add: LockManagerB_ReadLock_def Let_def split: option.split)

lemma B_ReadLock_granted:
  "fst (LockManagerB_ReadLock lm txn key) = (\<not> has_exclusive (queue_of lm key))"
  by (cases "queue_of lm key")
     (auto simp: LockManagerB_ReadLock_def queue_of_def Let_def has_exclusive_iff
           split: option.splits)

lemma B_ReadLock_waits:
  "txn_waits (snd (LockManagerB_ReadLock lm txn key))
     = (if has_exclusive (queue_of lm key) then waits_incr (txn_waits lm) txn
        else (txn_waits lm)(txn \<mapsto> 0))"
  by (cases "queue_of lm key")
     (auto simp: LockManagerB_ReadLock_def queue_of_def Let_def has_exclusive_iff
           split: option.splits)

text \<open>
  C10. In both variants a \<open>WriteLock\<close> or \<open>ReadLock\<close> that returns true leaves the
  transaction's wait counter at 0, whatever the counter was before the call, and the
  deques of all other keys (where requests of the transaction may still be waiting) are
  as they were.
\<close>

theorem immediate_grant_assigns_zero:
  "(fst (LockManagerA_WriteLock lm txn key) \<longrightarrow>
      txn_waits (snd (LockManagerA_WriteLock lm txn key)) txn = Some 0
      \<and> (\<forall>key'. key' \<noteq> key \<longrightarrow>
           lock_table (snd (LockManagerA_WriteLock lm txn key)) key' = lock_table lm key'))
   \<and> (fst (LockManagerA_ReadLock lm txn key) \<longrightarrow>
      txn_waits (snd (LockManagerA_ReadLock lm txn key)) txn = Some 0
      \<and> (\<forall>key'. key' \<noteq> key \<longrightarrow>
           lock_table (snd (LockManagerA_ReadLock lm txn key)) key' = lock_table lm key'))
   \<and> (fst (LockManagerB_WriteLock lm txn key) \<longrightarrow>
      txn_waits (snd (LockManagerB_WriteLock lm txn key)) txn = Some 0
      \<and> (\<forall>key'. key' \<noteq> key \<longrightarrow>
           lock_table (snd (LockManagerB_WriteLock lm txn key)) key' = lock_table lm key'))
   \<and> (fst (LockManagerB_ReadLock lm txn key) \<longrightarrow>
      txn_waits (snd (LockManagerB_ReadLock lm txn key)) txn = Some 0
      \<and> (\<forall>key'. key' \<noteq> key \<longrightarrow>
           lock_table (snd (LockManagerB_ReadLock lm txn key)) key' = lock_table lm key'))"
  by (simp add: LockManagerA_ReadLock_def LockManagerB_WriteLock_eq_A A_WriteLock_lock_table
        A_WriteLock_granted A_WriteLock_waits B_ReadLock_lock_table B_ReadLock_granted
        B_ReadLock_waits)

text \<open>
  Transaction 2 waits behind transaction 1 on \<open>''a''\<close> with the counter 1; its request for
  the free key \<open>''b''\<close> is granted at once and the counter is 0 after it, in both variants,
  while its request on \<open>''a''\<close> is still second in that deque.
\<close>

theorem immediate_grant_assigns_zero_witness:
  "txn_waits (A_run (LockManager_new :: string LockManager)
       [WriteLock 1 ''a'', WriteLock 2 ''a'']) 2 = Some 1
   \<and> fst (LockManagerA_WriteLock (A_run LockManager_new [WriteLock 1 ''a'', WriteLock 2 ''a''])
       2 ''b'')
   \<and> txn_waits (snd (LockManagerA_WriteLock
       (A_run LockManager_new [WriteLock 1 ''a'', WriteLock 2 ''a'']) 2 ''b'')) 2 = Some 0
   \<and> fst (LockManagerB_ReadLock (A_run LockManager_new [WriteLock 1 ''a'', WriteLock 2 ''a''])
       2 ''b'')
   \<and> txn_waits (snd (LockManagerB_ReadLock
       (A_run LockManager_new [WriteLock 1 ''a'', WriteLock 2 ''a'']) 2 ''b'')) 2 = Some 0
   \<and> lock_table (snd (LockManagerA_WriteLock
       (A_run LockManager_new [WriteLock 1 ''a'', WriteLock 2 ''a'']) 2 ''b'')) ''a''
     = Some [\<lparr>mode = EXCLUSIVE, txn_of = 1\<rparr>, \<lparr>mode = EXCLUSIVE, txn_of = 2\<rparr>]"
  using immediate_grant_assigns_zero
    [of "A_run (LockManager_new :: string LockManager) [WriteLock 1 ''a'', WriteLock 2 ''a'']"
        2 "''b''"]
  by (simp add: A_defs B_defs)

text \<open>
  C7. \<open>ReadLock\<close> of Variant B appends a shared request of the transaction to the key's
  deque. It returns true exactly when the deque then holds no exclusive request; in that
  case the transaction's counter is 0 afterwards, otherwise it is one more than before
  (one, for a transaction without a counter). No other deque and no other counter
  changes, and the ready deque is not touched.
\<close>

theorem LockManagerB_ReadLock_spec:
  "lock_table (snd (LockManagerB_ReadLock lm txn key))
     = (lock_table lm)(key \<mapsto> queue_of lm key @ [\<lparr>mode = SHARED, txn_of = txn\<rparr>])
   \<and> fst (LockManagerB_ReadLock lm txn key)
     = (\<forall>r \<in> set (queue_of lm key @ [\<lparr>mode = SHARED, txn_of = txn\<rparr>]). mode r \<noteq> EXCLUSIVE)
   \<and> (fst (LockManagerB_ReadLock lm txn key) \<longrightarrow>
        txn_waits (snd (LockManagerB_ReadLock lm txn key)) = (txn_waits lm)(txn \<mapsto> 0))
   \<and> (\<not> fst (LockManagerB_ReadLock lm txn key) \<longrightarrow>
        txn_waits (snd (LockManagerB_ReadLock lm txn key))
          = (txn_waits lm)(txn \<mapsto> (case txn_waits lm txn of None \<Rightarrow> 0 | Some c \<Rightarrow> c) + 1))
   \<and> ready_txns (snd (LockManagerB_ReadLock lm txn key)) = ready_txns lm"
  by (auto simp: B_ReadLock_lock_table B_ReadLock_granted B_ReadLock_waits B_ReadLock_ready
        has_exclusive_iff waits_incr_def)

text \<open>
  Behind the writer 1 the reader 2 waits with the counter 1; beside the reader 1 the
  reader 2 is granted with the counter 0.
\<close>

theorem LockManagerB_ReadLock_spec_witness:
  "fst (LockManagerB_ReadLock (snd (LockManagerB_WriteLock (LockManager_new :: string LockManager)
          1 ''a'')) 2 ''a'') = False
   \<and> txn_waits (snd (LockManagerB_ReadLock (snd (LockManagerB_WriteLock
          (LockManager_new :: string LockManager) 1 ''a'')) 2 ''a'')) 2 = Some 1
   \<and> fst (LockManagerB_ReadLock (snd (LockManagerB_ReadLock (LockManager_new :: string LockManager)
          1 ''a'')) 2 ''a'') = True
   \<and> txn_waits (snd (LockManagerB_ReadLock (snd (LockManagerB_ReadLock
          (LockManager_new :: string LockManager) 1 ''a'')) 2 ''a'')) 2 = Some 0"
  using LockManagerB_ReadLock_spec
      [of "snd (LockManagerB_WriteLock (LockManager_new :: string LockManager) 1 ''a'')" 2 "''a''"]
    LockManagerB_ReadLock_spec
      [of "snd (LockManagerB_ReadLock (LockManager_new :: string LockManager) 1 ''a'')" 2 "''a''"]
  by (simp add: B_defs queue_of_def)

section \<open>Variant A: cancelled requests\<close>

lemma erase_txn_first:
  "txn \<notin> txn_of ` set xs \<Longrightarrow> txn_of r = txn \<Longrightarrow> erase_txn txn (xs @ r # ys) = xs @ ys"
  by (induction xs) auto

lemma erase_txn_absent: "txn \<notin> txn_of ` set q \<Longrightarrow> erase_txn txn q = q"
  by (induction q) auto

lemma A_Release_loop_skips:
  "\<forall>z \<in> set zs. waits (txn_of z) = None \<Longrightarrow> waits (txn_of nxt) = Some c \<Longrightarrow>
   A_Release_loop (zs @ nxt # rest) waits ready
     = (nxt # rest, waits(txn_of nxt \<mapsto> c - 1), if c - 1 = 0 then ready @ [txn_of nxt] else ready)"
  by (induction zs) auto

lemma A_Release_loop_all_zombies:
  "\<forall>z \<in> set zs. waits (txn_of z) = None \<Longrightarrow> A_Release_loop zs waits ready = ([], waits, ready)"
  by (induction zs) auto

text \<open>
  C6. Variant A. (1) When the key's deque is not empty and its front request is not the
  caller's, \<open>Release\<close> removes the caller's first request from the deque (the front stays),
  erases the caller's counter and changes no other counter, leaves the ready deque as it
  is, and the status of every key is what it was: no lock is granted. (2) When the caller
  holds the front and the requests right behind it belong to transactions without a
  counter (zombies), \<open>Release\<close> pops them together with the front: the first request of a
  transaction that has a counter becomes the front, only that counter is decremented and
  only that transaction can be pushed to the ready deque. (3) When all requests behind the
  front are zombies they are all popped, and neither a counter nor the ready deque changes.
\<close>

theorem LockManagerA_Release_zombie:
  "(lock_table lm key = Some (front # xs @ r # ys) \<and> txn_of front \<noteq> txn
      \<and> txn \<notin> txn_of ` set xs \<and> txn_of r = txn \<longrightarrow>
      lock_table (LockManagerA_Release lm txn key) = (lock_table lm)(key \<mapsto> front # xs @ ys))
   \<and> (lock_table lm key = Some (front # rest) \<and> txn_of front \<noteq> txn \<longrightarrow>
        txn_waits (LockManagerA_Release lm txn key) = (txn_waits lm)(txn := None)
      \<and> ready_txns (LockManagerA_Release lm txn key) = ready_txns lm
      \<and> (\<forall>key'. LockManagerA_Status (LockManagerA_Release lm txn key) key'
            = LockManagerA_Status lm key'))
   \<and> (lock_table lm key = Some (front # zs @ nxt # rest) \<and> txn_of front = txn
      \<and> (\<forall>z \<in> set zs. txn_waits lm (txn_of z) = None) \<and> txn_waits lm (txn_of nxt) = Some c \<longrightarrow>
        LockManagerA_Release lm txn key
          = lm\<lparr>lock_table := (lock_table lm)(key \<mapsto> nxt # rest),
               txn_waits := (txn_waits lm)(txn_of nxt \<mapsto> c - 1),
               ready_txns := (if c - 1 = 0 then ready_txns lm @ [txn_of nxt] else ready_txns lm)\<rparr>)
   \<and> (lock_table lm key = Some (front # zs) \<and> txn_of front = txn \<and> zs \<noteq> []
      \<and> (\<forall>z \<in> set zs. txn_waits lm (txn_of z) = None) \<longrightarrow>
        LockManagerA_Release lm txn key = lm\<lparr>lock_table := (lock_table lm)(key \<mapsto> [])\<rparr>)"
proof (intro conjI impI)
  assume "lock_table lm key = Some (front # xs @ r # ys) \<and> txn_of front \<noteq> txn
      \<and> txn \<notin> txn_of ` set xs \<and> txn_of r = txn"
  then show "lock_table (LockManagerA_Release lm txn key) = (lock_table lm)(key \<mapsto> front # xs @ ys)"
    by (simp add: LockManagerA_Release_def erase_txn_first)
next
  assume h: "lock_table lm key = Some (front # rest) \<and> txn_of front \<noteq> txn"
  then show "txn_waits (LockManagerA_Release lm txn key) = (txn_waits lm)(txn := None)"
    by (simp add: LockManagerA_Release_def)
  from h show "ready_txns (LockManagerA_Release lm txn key) = ready_txns lm"
    by (simp add: LockManagerA_Release_def)
  from h show "\<forall>key'. LockManagerA_Status (LockManagerA_Release lm txn key) key'
            = LockManagerA_Status lm key'"
    by (simp add: LockManagerA_Release_def LockManagerA_Status_def)
next
  assume "lock_table lm key = Some (front # zs @ nxt # rest) \<and> txn_of front = txn
      \<and> (\<forall>z \<in> set zs. txn_waits lm (txn_of z) = None) \<and> txn_waits lm (txn_of nxt) = Some c"
  then show "LockManagerA_Release lm txn key
          = lm\<lparr>lock_table := (lock_table lm)(key \<mapsto> nxt # rest),
               txn_waits := (txn_waits lm)(txn_of nxt \<mapsto> c - 1),
               ready_txns := (if c - 1 = 0 then ready_txns lm @ [txn_of nxt] else ready_txns lm)\<rparr>"
    by (simp add: LockManagerA_Release_def A_Release_loop_skips)
next
  assume "lock_table lm key = Some (front # zs) \<and> txn_of front = txn \<and> zs \<noteq> []
      \<and> (\<forall>z \<in> set zs. txn_waits lm (txn_of z) = None)"
  then show "LockManagerA_Release lm txn key = lm\<lparr>lock_table := (lock_table lm)(key \<mapsto> [])\<rparr>"
    by (simp add: LockManagerA_Release_def A_Release_loop_all_zombies)
qed

text \<open>
  Transaction 2 waits on \<open>''a''\<close> and \<open>''b''\<close> behind transaction 1 and cancels on \<open>''a''\<close>;
  transaction 3 waits on \<open>''b''\<close> behind both. The cancellation changes neither the ready
  deque nor the counter of 3. When 1 releases \<open>''b''\<close>, the request of 2 is popped and 3
  is the owner and ready; without transaction 3 the deque of \<open>''b''\<close> is left empty.
\<close>

theorem LockManagerA_Release_zombie_witness:
  "lock_table (A_run (LockManager_new :: string LockManager)
       [WriteLock 1 ''a'', WriteLock 1 ''b'', WriteLock 2 ''a'', WriteLock 2 ''b'', WriteLock 3 ''b'',
        Release 2 ''a'']) ''a'' = Some [\<lparr>mode = EXCLUSIVE, txn_of = 1\<rparr>]
   \<and> txn_waits (A_run (LockManager_new :: string LockManager)
       [WriteLock 1 ''a'', WriteLock 1 ''b'', WriteLock 2 ''a'', WriteLock 2 ''b'', WriteLock 3 ''b'',
        Release 2 ''a'']) 2 = None
   \<and> ready_txns (A_run (LockManager_new :: string LockManager)
       [WriteLock 1 ''a'', WriteLock 1 ''b'', WriteLock 2 ''a'', WriteLock 2 ''b'', WriteLock 3 ''b'',
        Release 2 ''a'']) = []
   \<and> ready_txns (A_run (LockManager_new :: string LockManager)
       [WriteLock 1 ''a'', WriteLock 1 ''b'', WriteLock 2 ''a'', WriteLock 2 ''b'', WriteLock 3 ''b'',
        Release 2 ''a'', Release 1 ''b'']) = [3]
   \<and> lock_table (A_run (LockManager_new :: string LockManager)
       [WriteLock 1 ''a'', WriteLock 1 ''b'', WriteLock 2 ''a'', WriteLock 2 ''b'', WriteLock 3 ''b'',
        Release 2 ''a'', Release 1 ''b'']) ''b'' = Some [\<lparr>mode = EXCLUSIVE, txn_of = 3\<rparr>]
   \<and> LockManagerA_Release (A_run (LockManager_new :: string LockManager)
       [WriteLock 1 ''a'', WriteLock 1 ''b'', WriteLock 2 ''a'', WriteLock 2 ''b'', Release 2 ''a''])
       1 ''b''
     = (A_run (LockManager_new :: string LockManager)
       [WriteLock 1 ''a'', WriteLock 1 ''b'', WriteLock 2 ''a'', WriteLock 2 ''b'', Release 2 ''a''])
       \<lparr>lock_table := (lock_table (A_run (LockManager_new :: string LockManager)
         [WriteLock 1 ''a'', WriteLock 1 ''b'', WriteLock 2 ''a'', WriteLock 2 ''b'', Release 2 ''a'']))
         (''b'' \<mapsto> [])\<rparr>"
  using LockManagerA_Release_zombie
    [where lm = "A_run (LockManager_new :: string LockManager)
          [WriteLock 1 ''a'', WriteLock 1 ''b'', WriteLock 2 ''a'', WriteLock 2 ''b'', WriteLock 3 ''b'']"
       and key = "''a''" and txn = 2 and front = "\<lparr>mode = EXCLUSIVE, txn_of = 1\<rparr>"
       and xs = "[]" and r = "\<lparr>mode = EXCLUSIVE, txn_of = 2\<rparr>" and ys = "[]"
       and rest = "[\<lparr>mode = EXCLUSIVE, txn_of = 2\<rparr>]"
       and zs = "[]" and nxt = "\<lparr>mode = EXCLUSIVE, txn_of = 2\<rparr>" and c = 0]
    LockManagerA_Release_zombie
    [where lm = "A_run (LockManager_new :: string LockManager)
          [WriteLock 1 ''a'', WriteLock 1 ''b'', WriteLock 2 ''a'', WriteLock 2 ''b'', WriteLock 3 ''b'',
           Release 2 ''a'']"
       and key = "''b''" and txn = 1 and front = "\<lparr>mode = EXCLUSIVE, txn_of = 1\<rparr>"
       and xs = "[]" and r = "\<lparr>mode = EXCLUSIVE, txn_of = 1\<rparr>" and ys = "[]"
       and rest = "[]"
       and zs = "[\<lparr>mode = EXCLUSIVE, txn_of = 2\<rparr>]" and nxt = "\<lparr>mode = EXCLUSIVE, txn_of = 3\<rparr>"
       and c = 1]
    LockManagerA_Release_zombie
    [where lm = "A_run (LockManager_new :: string LockManager)
          [WriteLock 1 ''a'', WriteLock 1 ''b'', WriteLock 2 ''a'', WriteLock 2 ''b'', Release 2 ''a'']"
       and key = "''b''" and txn = 1 and front = "\<lparr>mode = EXCLUSIVE, txn_of = 1\<rparr>"
       and xs = "[]" and r = "\<lparr>mode = EXCLUSIVE, txn_of = 1\<rparr>" and ys = "[]"
       and rest = "[]"
       and zs = "[\<lparr>mode = EXCLUSIVE, txn_of = 2\<rparr>]" and nxt = "\<lparr>mode = EXCLUSIVE, txn_of = 2\<rparr>"
       and c = 0]
  by (simp add: A_defs Let_def)

section \<open>Holders and grants\<close>

lemma shared_owners_takeWhile:
  "shared_owners q = map txn_of (takeWhile (\<lambda>r. mode r \<noteq> EXCLUSIVE) q)"
  by (induction q) auto

lemma shared_owners_prefix:
  "shared_owners q = map txn_of (take (length (shared_owners q)) q)"
  by (induction q) auto

lemma shared_owners_modes:
  "i < length (shared_owners q) \<Longrightarrow> mode (q ! i) \<noteq> EXCLUSIVE"
proof (induction q arbitrary: i)
  case Nil
  then show ?case by simp
next
  case (Cons r q)
  then show ?case by (cases i) (auto split: if_splits)
qed

lemma B_Status_owners:
  "snd (LockManagerB_Status lm key)
     = (case queue_of lm key of [] \<Rightarrow> []
        | r # rest \<Rightarrow> if mode r = EXCLUSIVE then [txn_of r] else shared_owners (r # rest))"
  by (simp add: LockManagerB_Status_def queue_of_def split: option.split list.split)

lemma B_Status_holders_prefix:
  "snd (LockManagerB_Status lm key)
     = map txn_of (take (length (snd (LockManagerB_Status lm key))) (queue_of lm key))"
proof (cases "queue_of lm key")
  case Nil
  then show ?thesis by (simp add: B_Status_owners)
next
  case (Cons r rest)
  show ?thesis
  proof (cases "mode r = EXCLUSIVE")
    case True
    with Cons show ?thesis by (simp add: B_Status_owners)
  next
    case False
    with Cons have "snd (LockManagerB_Status lm key) = shared_owners (queue_of lm key)"
      by (simp add: B_Status_owners)
    then show ?thesis using shared_owners_prefix [of "queue_of lm key"] by simp
  qed
qed

lemma B_Status_holders_exclusive:
  assumes "i < length (snd (LockManagerB_Status lm key))" "mode (queue_of lm key ! i) = EXCLUSIVE"
  shows "i = 0"
proof (cases "queue_of lm key")
  case Nil
  with assms show ?thesis by (simp add: B_Status_owners)
next
  case (Cons r rest)
  show ?thesis
  proof (cases "mode r = EXCLUSIVE")
    case True
    with Cons assms show ?thesis by (simp add: B_Status_owners)
  next
    case False
    with Cons have "snd (LockManagerB_Status lm key) = shared_owners (queue_of lm key)"
      by (simp add: B_Status_owners)
    with assms(1) have "mode (queue_of lm key ! i) \<noteq> EXCLUSIVE"
      using shared_owners_modes [of i "queue_of lm key"] by simp
    with assms(2) show ?thesis by simp
  qed
qed

lemma A_Status_holders:
  "snd (LockManagerA_Status lm key) = map txn_of (take 1 (queue_of lm key))"
  by (auto simp: LockManagerA_Status_def queue_of_def split: option.splits list.splits)

lemma B_Release_owners_frame:
  "B_Release_owners owners waits ready = (waits', ready') \<Longrightarrow>
   (\<forall>u. u \<notin> set owners \<longrightarrow> waits' u = waits u)
   \<and> (\<exists>pushed. ready' = ready @ pushed \<and> set pushed \<subseteq> set owners)"
proof (induction owners arbitrary: waits ready)
  case Nil
  then show ?case by simp
next
  case (Cons owner owners)
  show ?case
  proof (cases "waits owner")
    case None
    with Cons.prems have "B_Release_owners owners waits ready = (waits', ready')" by simp
    from Cons.IH [OF this] show ?thesis by auto
  next
    case (Some c)
    show ?thesis
    proof (cases "c - 1 = 0")
      case True
      with Some Cons.prems
      have "B_Release_owners owners (waits(owner := None)) (ready @ [owner]) = (waits', ready')"
        by simp
      from Cons.IH [OF this] show ?thesis by auto
    next
      case False
      with Some Cons.prems
      have "B_Release_owners owners (waits(owner \<mapsto> c - 1)) ready = (waits', ready')"
        by simp
      from Cons.IH [OF this] show ?thesis by auto
    qed
  qed
qed

lemma A_Release_loop_result:
  "A_Release_loop q waits ready = (q', waits', ready') \<Longrightarrow>
   (q' = [] \<and> waits' = waits \<and> ready' = ready)
   \<or> (\<exists>r rest c. q' = r # rest \<and> waits (txn_of r) = Some c \<and> waits' = waits(txn_of r \<mapsto> c - 1)
        \<and> ready' = (if c - 1 = 0 then ready @ [txn_of r] else ready))"
proof (induction q)
  case Nil
  then show ?case by simp
next
  case (Cons a q)
  show ?case
  proof (cases "waits (txn_of a)")
    case None
    with Cons.prems have "A_Release_loop q waits ready = (q', waits', ready')" by simp
    from Cons.IH [OF this] show ?thesis .
  next
    case (Some c)
    with Cons.prems have "q' = a # q" "waits' = waits(txn_of a \<mapsto> c - 1)"
      "ready' = (if c - 1 = 0 then ready @ [txn_of a] else ready)"
      by simp_all
    with Some show ?thesis by blast
  qed
qed

lemma B_Release_grants_owners:
  assumes "LockManagerB_Release lm txn key = Inr lm'"
  shows "(\<forall>u. txn_waits lm' u \<noteq> txn_waits lm u \<longrightarrow> u \<in> set (snd (LockManagerB_Status lm' key)))
     \<and> (\<exists>pushed. ready_txns lm' = ready_txns lm @ pushed
           \<and> set pushed \<subseteq> set (snd (LockManagerB_Status lm' key)))"
proof -
  from assms obtain lock_deq where q: "lock_table lm key = Some lock_deq"
    by (auto simp: LockManagerB_Release_def split: option.splits)
  define lm1 where "lm1 = lm\<lparr>lock_table := (lock_table lm)(key \<mapsto> erase_txn txn lock_deq)\<rparr>"
  obtain waits ready where
    o: "B_Release_owners (snd (LockManagerB_Status lm1 key)) (txn_waits lm) (ready_txns lm) = (waits, ready)"
    by (cases "B_Release_owners (snd (LockManagerB_Status lm1 key)) (txn_waits lm) (ready_txns lm)")
  from assms q o have lm': "lm' = lm1\<lparr>txn_waits := waits, ready_txns := ready\<rparr>"
    by (simp add: LockManagerB_Release_def lm1_def Let_def)
  have st: "LockManagerB_Status lm' key = LockManagerB_Status lm1 key"
    by (simp add: lm' LockManagerB_Status_def)
  from B_Release_owners_frame [OF o] show ?thesis
    by (auto simp: st) (auto simp: lm' lm1_def)
qed

lemma A_Release_grants_owner:
  assumes "lock_table lm key = Some (front # rest)" "txn_of front = txn"
  shows "(\<forall>u. txn_waits (LockManagerA_Release lm txn key) u \<noteq> txn_waits lm u \<longrightarrow>
            snd (LockManagerA_Status (LockManagerA_Release lm txn key) key) = [u])
     \<and> (ready_txns (LockManagerA_Release lm txn key) = ready_txns lm
         \<or> (\<exists>u. ready_txns (LockManagerA_Release lm txn key) = ready_txns lm @ [u]
               \<and> snd (LockManagerA_Status (LockManagerA_Release lm txn key) key) = [u]))"
proof (cases "rest = []")
  case True
  with assms show ?thesis by (simp add: LockManagerA_Release_def)
next
  case False
  obtain q' waits' ready' where
    l: "A_Release_loop rest (txn_waits lm) (ready_txns lm) = (q', waits', ready')"
    by (cases "A_Release_loop rest (txn_waits lm) (ready_txns lm)")
  from assms False l have r: "LockManagerA_Release lm txn key
      = lm\<lparr>lock_table := (lock_table lm)(key \<mapsto> q'), txn_waits := waits', ready_txns := ready'\<rparr>"
    by (simp add: LockManagerA_Release_def)
  from A_Release_loop_result [OF l] show ?thesis
  proof
    assume "q' = [] \<and> waits' = txn_waits lm \<and> ready' = ready_txns lm"
    then show ?thesis by (simp add: r)
  next
    assume "\<exists>r rest c. q' = r # rest \<and> txn_waits lm (txn_of r) = Some c
        \<and> waits' = (txn_waits lm)(txn_of r \<mapsto> c - 1)
        \<and> ready' = (if c - 1 = 0 then ready_txns lm @ [txn_of r] else ready_txns lm)"
    then obtain x xs c where x: "q' = x # xs" "waits' = (txn_waits lm)(txn_of x \<mapsto> c - 1)"
        "ready' = (if c - 1 = 0 then ready_txns lm @ [txn_of x] else ready_txns lm)"
      by blast
    have st: "snd (LockManagerA_Status (LockManagerA_Release lm txn key) key) = [txn_of x]"
      by (simp add: r x LockManagerA_Status_def)
    have w: "\<forall>u. txn_waits (LockManagerA_Release lm txn key) u \<noteq> txn_waits lm u \<longrightarrow> u = txn_of x"
      by (simp add: r x)
    have rd: "ready_txns (LockManagerA_Release lm txn key) = ready_txns lm
        \<or> ready_txns (LockManagerA_Release lm txn key) = ready_txns lm @ [txn_of x]"
      by (simp add: r x)
    from st w rd show ?thesis by auto
  qed
qed

lemma A_WriteLock_granted_sole:
  "fst (LockManagerA_WriteLock lm txn key)
     = (queue_of (snd (LockManagerA_WriteLock lm txn key)) key = [\<lparr>mode = EXCLUSIVE, txn_of = txn\<rparr>])"
proof -
  have "queue_of (snd (LockManagerA_WriteLock lm txn key)) key
      = queue_of lm key @ [\<lparr>mode = EXCLUSIVE, txn_of = txn\<rparr>]"
    by (simp add: queue_of_def [of "snd (LockManagerA_WriteLock lm txn key)"] A_WriteLock_lock_table)
  then show ?thesis by (simp add: A_WriteLock_granted)
qed

lemma B_WriteLock_lock_table:
  "lock_table (snd (LockManagerB_WriteLock lm txn key))
     = (lock_table lm)(key \<mapsto> queue_of lm key @ [\<lparr>mode = EXCLUSIVE, txn_of = txn\<rparr>])"
  by (simp add: LockManagerB_WriteLock_eq_A A_WriteLock_lock_table)

lemma B_WriteLock_granted_sole:
  "fst (LockManagerB_WriteLock lm txn key)
     = (queue_of (snd (LockManagerB_WriteLock lm txn key)) key = [\<lparr>mode = EXCLUSIVE, txn_of = txn\<rparr>])"
  unfolding LockManagerB_WriteLock_eq_A by (rule A_WriteLock_granted_sole)

lemma B_Status_holders_exclusive_all:
  "\<forall>i. i < length (snd (LockManagerB_Status lm key)) \<and> mode (queue_of lm key ! i) = EXCLUSIVE
         \<longrightarrow> i = 0"
  by (intro allI impI, erule conjE, rule B_Status_holders_exclusive)

lemma A_Release_grants_owner_all:
  "\<forall>front rest. lock_table lm key = Some (front # rest) \<and> txn_of front = txn \<longrightarrow>
         (\<forall>u. txn_waits (LockManagerA_Release lm txn key) u \<noteq> txn_waits lm u \<longrightarrow>
            snd (LockManagerA_Status (LockManagerA_Release lm txn key) key) = [u])
       \<and> (ready_txns (LockManagerA_Release lm txn key) = ready_txns lm
         \<or> (\<exists>u. ready_txns (LockManagerA_Release lm txn key) = ready_txns lm @ [u]
               \<and> snd (LockManagerA_Status (LockManagerA_Release lm txn key) key) = [u]))"
  by (intro allI impI, erule conjE, rule A_Release_grants_owner)

lemma B_Release_grants_owners_all:
  "\<forall>lm'. LockManagerB_Release lm txn key = Inr lm' \<longrightarrow>
         (\<forall>u. txn_waits lm' u \<noteq> txn_waits lm u \<longrightarrow> u \<in> set (snd (LockManagerB_Status lm' key)))
       \<and> (\<exists>pushed. ready_txns lm' = ready_txns lm @ pushed
             \<and> set pushed \<subseteq> set (snd (LockManagerB_Status lm' key)))"
  by (intro allI impI, rule B_Release_grants_owners)

text \<open>
  Per key, in both variants: \<open>WriteLock\<close> appends an exclusive request to the key's deque
  and returns true exactly when that request is then the only one in the deque. The
  holders that \<open>Status\<close> reports are a prefix of the deque, and an exclusive request is
  among them only at the front, with no request before it (in Variant A the prefix has at
  most one request). A \<open>Release\<close> by the holder of the front in Variant A, and every
  \<open>Release\<close> that returns in Variant B, decrements counters only of transactions that
  \<open>Status\<close> reports as holders of the released key after the call, and appends only such
  transactions to the ready deque. What this does not say is that an appended transaction
  holds its other keys: see the next section.
\<close>

theorem WriteLock_granted_only_at_front:
  "lock_table (snd (LockManagerA_WriteLock lm txn key))
       = (lock_table lm)(key \<mapsto> queue_of lm key @ [\<lparr>mode = EXCLUSIVE, txn_of = txn\<rparr>])
   \<and> fst (LockManagerA_WriteLock lm txn key)
       = (queue_of (snd (LockManagerA_WriteLock lm txn key)) key = [\<lparr>mode = EXCLUSIVE, txn_of = txn\<rparr>])
   \<and> lock_table (snd (LockManagerB_WriteLock lm txn key))
       = (lock_table lm)(key \<mapsto> queue_of lm key @ [\<lparr>mode = EXCLUSIVE, txn_of = txn\<rparr>])
   \<and> fst (LockManagerB_WriteLock lm txn key)
       = (queue_of (snd (LockManagerB_WriteLock lm txn key)) key = [\<lparr>mode = EXCLUSIVE, txn_of = txn\<rparr>])
   \<and> snd (LockManagerA_Status lm key) = map txn_of (take 1 (queue_of lm key))
   \<and> snd (LockManagerB_Status lm key)
       = map txn_of (take (length (snd (LockManagerB_Status lm key))) (queue_of lm key))
   \<and> (\<forall>i. i < length (snd (LockManagerB_Status lm key)) \<and> mode (queue_of lm key ! i) = EXCLUSIVE
         \<longrightarrow> i = 0)
   \<and> (\<forall>front rest. lock_table lm key = Some (front # rest) \<and> txn_of front = txn \<longrightarrow>
         (\<forall>u. txn_waits (LockManagerA_Release lm txn key) u \<noteq> txn_waits lm u \<longrightarrow>
            snd (LockManagerA_Status (LockManagerA_Release lm txn key) key) = [u])
       \<and> (ready_txns (LockManagerA_Release lm txn key) = ready_txns lm
         \<or> (\<exists>u. ready_txns (LockManagerA_Release lm txn key) = ready_txns lm @ [u]
               \<and> snd (LockManagerA_Status (LockManagerA_Release lm txn key) key) = [u])))
   \<and> (\<forall>lm'. LockManagerB_Release lm txn key = Inr lm' \<longrightarrow>
         (\<forall>u. txn_waits lm' u \<noteq> txn_waits lm u \<longrightarrow> u \<in> set (snd (LockManagerB_Status lm' key)))
       \<and> (\<exists>pushed. ready_txns lm' = ready_txns lm @ pushed
             \<and> set pushed \<subseteq> set (snd (LockManagerB_Status lm' key))))"
  by (intro conjI)
     (rule A_WriteLock_lock_table A_WriteLock_granted_sole B_WriteLock_lock_table
        B_WriteLock_granted_sole A_Status_holders B_Status_holders_prefix
        B_Status_holders_exclusive_all A_Release_grants_owner_all B_Release_grants_owners_all)+

text \<open>
  Transaction 2 asks for \<open>''a''\<close> behind the writer 1: it is refused, and 1 alone is
  reported as the holder. When 1 releases the key, 2 is at the front, becomes the holder
  and is the one transaction appended to the ready deque, in both variants.
\<close>

theorem WriteLock_granted_only_at_front_witness:
  "\<not> fst (LockManagerB_WriteLock (snd (LockManagerB_WriteLock (LockManager_new :: string LockManager)
        1 ''a'')) 2 ''a'')
   \<and> LockManagerB_Status (snd (LockManagerB_WriteLock (snd (LockManagerB_WriteLock
        (LockManager_new :: string LockManager) 1 ''a'')) 2 ''a'')) ''a'' = (EXCLUSIVE, [1])
   \<and> (case LockManagerB_Release (snd (LockManagerB_WriteLock (snd (LockManagerB_WriteLock
        (LockManager_new :: string LockManager) 1 ''a'')) 2 ''a'')) 1 ''a'' of
        Inl f \<Rightarrow> False
      | Inr lm' \<Rightarrow> ready_txns lm' = [2] \<and> LockManagerB_Status lm' ''a'' = (EXCLUSIVE, [2]))
   \<and> ready_txns (LockManagerA_Release (snd (LockManagerB_WriteLock (snd (LockManagerB_WriteLock
        (LockManager_new :: string LockManager) 1 ''a'')) 2 ''a'')) 1 ''a'') = [2]
   \<and> LockManagerA_Status (LockManagerA_Release (snd (LockManagerB_WriteLock (snd
        (LockManagerB_WriteLock (LockManager_new :: string LockManager) 1 ''a'')) 2 ''a'')) 1 ''a'')
        ''a'' = (EXCLUSIVE, [2])"
  using WriteLock_granted_only_at_front
    [where lm = "snd (LockManagerB_WriteLock (snd (LockManagerB_WriteLock
        (LockManager_new :: string LockManager) 1 ''a'')) 2 ''a'')" and txn = 1 and key = "''a''"]
  by (simp add: A_defs B_defs Let_def)

section \<open>A write request signalled behind the holder\<close>

text \<open>
  C8. The first half holds in both variants: \<open>WriteLock(2, b)\<close> behind the writer 9 is
  refused. The second half does not hold of the signal that tells a transaction that its
  requests are granted. Variant B, from a new lock manager: 9 holds \<open>''b''\<close>, the readers 1
  and 2 hold \<open>''a''\<close>, and 2 asks for \<open>''b''\<close> and waits behind 9 with the counter 1;
  \<open>Release(1, a)\<close> finds 2 among the owners of \<open>''a''\<close>, decrements its counter to 0 and
  appends 2 to the ready deque, while the request of 9 is still before the write request
  of 2 in the deque of \<open>''b''\<close> and 9 is its holder. Variant A, from a new lock manager: 9
  holds \<open>''b''\<close> and 1 holds \<open>''a''\<close>; 2 waits on \<open>''b''\<close>, is granted \<open>''c''\<close> at once,
  which resets its counter to 0, and waits on \<open>''a''\<close> with the counter 1;
  \<open>Release(1, a)\<close> decrements that to 0 and appends 2 to the ready deque, while 9 is
  still before 2 in the deque of \<open>''b''\<close>.
\<close>

theorem write_request_signalled_behind_holder:
  "(case B_run (LockManager_new :: string LockManager)
          [WriteLock 9 ''b'', ReadLock 1 ''a'', ReadLock 2 ''a''] of
      Inl f \<Rightarrow> False
    | Inr lm \<Rightarrow> fst (LockManagerB_WriteLock lm 2 ''b'') = False)
   \<and> (case B_run (LockManager_new :: string LockManager)
          [WriteLock 9 ''b'', ReadLock 1 ''a'', ReadLock 2 ''a'', WriteLock 2 ''b''] of
      Inl f \<Rightarrow> False
    | Inr lm \<Rightarrow> ready_txns lm = [] \<and> txn_waits lm 2 = Some 1)
   \<and> (case B_run (LockManager_new :: string LockManager)
          [WriteLock 9 ''b'', ReadLock 1 ''a'', ReadLock 2 ''a'', WriteLock 2 ''b'', Release 1 ''a''] of
      Inl f \<Rightarrow> False
    | Inr lm \<Rightarrow> ready_txns lm = [2]
        \<and> lock_table lm ''b''
            = Some [\<lparr>mode = EXCLUSIVE, txn_of = 9\<rparr>, \<lparr>mode = EXCLUSIVE, txn_of = 2\<rparr>]
        \<and> LockManagerB_Status lm ''b'' = (EXCLUSIVE, [9]))
   \<and> fst (LockManagerA_WriteLock (A_run (LockManager_new :: string LockManager)
        [WriteLock 9 ''b'', WriteLock 1 ''a'']) 2 ''b'') = False
   \<and> ready_txns (A_run (LockManager_new :: string LockManager)
        [WriteLock 9 ''b'', WriteLock 1 ''a'', WriteLock 2 ''b'', WriteLock 2 ''c'',
         WriteLock 2 ''a'']) = []
   \<and> ready_txns (A_run (LockManager_new :: string LockManager)
        [WriteLock 9 ''b'', WriteLock 1 ''a'', WriteLock 2 ''b'', WriteLock 2 ''c'',
         WriteLock 2 ''a'', Release 1 ''a'']) = [2]
   \<and> lock_table (A_run (LockManager_new :: string LockManager)
        [WriteLock 9 ''b'', WriteLock 1 ''a'', WriteLock 2 ''b'', WriteLock 2 ''c'',
         WriteLock 2 ''a'', Release 1 ''a'']) ''b''
      = Some [\<lparr>mode = EXCLUSIVE, txn_of = 9\<rparr>, \<lparr>mode = EXCLUSIVE, txn_of = 2\<rparr>]
   \<and> LockManagerA_Status (A_run (LockManager_new :: string LockManager)
        [WriteLock 9 ''b'', WriteLock 1 ''a'', WriteLock 2 ''b'', WriteLock 2 ''c'',
         WriteLock 2 ''a'', Release 1 ''a'']) ''b'' = (EXCLUSIVE, [9])"
  by (simp add: A_defs B_defs Let_def)

section \<open>Empty deques in the lock table\<close>

lemma A_WriteLock_no_empty_queue:
  "no_empty_queue lm \<Longrightarrow> no_empty_queue (snd (LockManagerA_WriteLock lm txn key))"
  by (simp add: no_empty_queue_def A_WriteLock_lock_table)

lemma B_ReadLock_no_empty_queue:
  "no_empty_queue lm \<Longrightarrow> no_empty_queue (snd (LockManagerB_ReadLock lm txn key))"
  by (simp add: no_empty_queue_def B_ReadLock_lock_table)

lemma A_Release_loop_nonempty:
  "\<exists>r \<in> set q. waits (txn_of r) \<noteq> None \<Longrightarrow> fst (A_Release_loop q waits ready) \<noteq> []"
  by (induction q) (auto split: option.splits)

lemma A_Release_lock_table_other:
  "key' \<noteq> key \<Longrightarrow> lock_table (LockManagerA_Release lm txn key) key' = lock_table lm key'"
  by (simp add: LockManagerA_Release_def split: option.split list.split prod.split)

lemma A_Release_no_empty_queue:
  assumes inv: "no_empty_queue lm"
    and tail: "\<forall>front rest. lock_table lm key = Some (front # rest) \<and> txn_of front = txn \<and> rest \<noteq> []
                 \<longrightarrow> (\<exists>r \<in> set rest. txn_waits lm (txn_of r) \<noteq> None)"
  shows "no_empty_queue (LockManagerA_Release lm txn key)"
proof -
  have "lock_table (LockManagerA_Release lm txn key) key \<noteq> Some []"
  proof (cases "lock_table lm key")
    case None
    then show ?thesis by (simp add: LockManagerA_Release_def)
  next
    case (Some q)
    show ?thesis
    proof (cases q)
      case Nil
      with Some inv show ?thesis by (simp add: no_empty_queue_def)
    next
      case (Cons front rest)
      show ?thesis
      proof (cases "txn_of front = txn")
        case False
        with Some Cons show ?thesis by (simp add: LockManagerA_Release_def)
      next
        case True
        show ?thesis
        proof (cases "rest = []")
          case True
          with Some Cons \<open>txn_of front = txn\<close> show ?thesis by (simp add: LockManagerA_Release_def)
        next
          case False
          with tail Some Cons \<open>txn_of front = txn\<close>
          have "\<exists>r \<in> set rest. txn_waits lm (txn_of r) \<noteq> None" by simp
          then have "fst (A_Release_loop rest (txn_waits lm) (ready_txns lm)) \<noteq> []"
            by (rule A_Release_loop_nonempty)
          moreover obtain q' waits' ready' where
            "A_Release_loop rest (txn_waits lm) (ready_txns lm) = (q', waits', ready')"
            by (cases "A_Release_loop rest (txn_waits lm) (ready_txns lm)")
          ultimately show ?thesis
            using Some Cons False \<open>txn_of front = txn\<close> by (simp add: LockManagerA_Release_def)
        qed
      qed
    qed
  qed
  note at_key = this
  show ?thesis
    unfolding no_empty_queue_def
  proof
    fix key'
    show "lock_table (LockManagerA_Release lm txn key) key' \<noteq> Some []"
    proof (cases "key' = key")
      case True
      with at_key show ?thesis by simp
    next
      case False
      with inv show ?thesis by (simp add: A_Release_lock_table_other no_empty_queue_def)
    qed
  qed
qed

lemma A_Release_last_request:
  "lock_table lm key = Some [front] \<Longrightarrow> txn_of front = txn \<Longrightarrow>
   lock_table (LockManagerA_Release lm txn key) = (lock_table lm)(key := None)"
  by (simp add: LockManagerA_Release_def)

lemma B_Release_lock_table:
  "LockManagerB_Release lm txn key = Inr lm' \<Longrightarrow>
   lock_table lm' = (lock_table lm)(key \<mapsto> erase_txn txn (queue_of lm key))"
  by (auto simp: LockManagerB_Release_def queue_of_def Let_def split: option.splits prod.splits)

lemma B_Release_dom:
  assumes "LockManagerB_Release lm txn key = Inr lm'"
  shows "dom (lock_table lm') = dom (lock_table lm)"
proof -
  from assms have "key \<in> dom (lock_table lm)"
    by (auto simp: LockManagerB_Release_def split: option.splits)
  then show ?thesis using B_Release_lock_table [OF assms] by (simp add: insert_absorb)
qed

lemma Status_empty_queue:
  "lock_table lm key = Some [] \<Longrightarrow>
   LockManagerA_Status lm key = (UNLOCKED, []) \<and> LockManagerB_Status lm key = (UNLOCKED, [])"
  by (simp add: LockManagerA_Status_def LockManagerB_Status_def)

text \<open>
  C9, as the code has it. The lock requests of both variants keep the lock table free
  of empty deques. \<open>Release\<close> of Variant A deletes the key's entry when the popped holder
  was the only request, and keeps the table free of empty deques whenever the requests
  behind the popped holder are not all zombies. \<open>Release\<close> of Variant B never deletes an
  entry: the key keeps its deque, without the caller's first request, also when that
  leaves it empty. An empty deque is an unlocked key for \<open>Status\<close> in both variants.
\<close>

theorem empty_queue_deleted_amended:
  "(no_empty_queue lm \<longrightarrow>
      no_empty_queue (snd (LockManagerA_WriteLock lm txn key))
      \<and> no_empty_queue (snd (LockManagerA_ReadLock lm txn key))
      \<and> no_empty_queue (snd (LockManagerB_WriteLock lm txn key))
      \<and> no_empty_queue (snd (LockManagerB_ReadLock lm txn key)))
   \<and> (\<forall>front. lock_table lm key = Some [front] \<and> txn_of front = txn \<longrightarrow>
        lock_table (LockManagerA_Release lm txn key) = (lock_table lm)(key := None))
   \<and> (no_empty_queue lm
      \<and> (\<forall>front rest. lock_table lm key = Some (front # rest) \<and> txn_of front = txn \<and> rest \<noteq> []
            \<longrightarrow> (\<exists>r \<in> set rest. txn_waits lm (txn_of r) \<noteq> None)) \<longrightarrow>
        no_empty_queue (LockManagerA_Release lm txn key))
   \<and> (\<forall>lm'. LockManagerB_Release lm txn key = Inr lm' \<longrightarrow>
        dom (lock_table lm') = dom (lock_table lm)
        \<and> lock_table lm' = (lock_table lm)(key \<mapsto> erase_txn txn (queue_of lm key)))
   \<and> (lock_table lm key = Some [] \<longrightarrow>
        LockManagerA_Status lm key = (UNLOCKED, []) \<and> LockManagerB_Status lm key = (UNLOCKED, []))"
proof (intro conjI allI impI)
  assume inv: "no_empty_queue lm"
  then show "no_empty_queue (snd (LockManagerA_WriteLock lm txn key))"
    by (rule A_WriteLock_no_empty_queue)
  then show "no_empty_queue (snd (LockManagerA_ReadLock lm txn key))"
    by (simp add: LockManagerA_ReadLock_def)
  from inv show "no_empty_queue (snd (LockManagerB_WriteLock lm txn key))"
    by (simp add: LockManagerB_WriteLock_eq_A A_WriteLock_no_empty_queue)
  from inv show "no_empty_queue (snd (LockManagerB_ReadLock lm txn key))"
    by (rule B_ReadLock_no_empty_queue)
next
  fix front
  assume "lock_table lm key = Some [front] \<and> txn_of front = txn"
  then show "lock_table (LockManagerA_Release lm txn key) = (lock_table lm)(key := None)"
    by (simp add: A_Release_last_request)
next
  assume h: "no_empty_queue lm
      \<and> (\<forall>front rest. lock_table lm key = Some (front # rest) \<and> txn_of front = txn \<and> rest \<noteq> []
            \<longrightarrow> (\<exists>r \<in> set rest. txn_waits lm (txn_of r) \<noteq> None))"
  show "no_empty_queue (LockManagerA_Release lm txn key)"
    by (rule A_Release_no_empty_queue [OF conjunct1 [OF h] conjunct2 [OF h]])
next
  fix lm'
  assume r: "LockManagerB_Release lm txn key = Inr lm'"
  then show "dom (lock_table lm') = dom (lock_table lm)" by (rule B_Release_dom)
  from r show "lock_table lm' = (lock_table lm)(key \<mapsto> erase_txn txn (queue_of lm key))"
    by (rule B_Release_lock_table)
next
  assume e: "lock_table lm key = Some []"
  then show "LockManagerA_Status lm key = (UNLOCKED, [])" by (simp add: Status_empty_queue)
  from e show "LockManagerB_Status lm key = (UNLOCKED, [])" by (simp add: Status_empty_queue)
qed

text \<open>
  Variant B: after \<open>ReadLock(1, a)\<close> and \<open>Release(1, a)\<close> the key \<open>''a''\<close> is mapped to the
  empty deque. Variant A: transaction 2 waits behind 1 on \<open>''a''\<close> and \<open>''b''\<close> and cancels
  on \<open>''a''\<close>; when 1 releases \<open>''b''\<close> the zombie 2 is popped and \<open>''b''\<close> is mapped to
  the empty deque. Before the last call no key of either table was mapped to an empty deque.
\<close>

theorem empty_queue_deleted_counterexample:
  "no_empty_queue (snd (LockManagerB_ReadLock (LockManager_new :: string LockManager) 1 ''a''))
   \<and> LockManagerB_Release (snd (LockManagerB_ReadLock (LockManager_new :: string LockManager) 1 ''a''))
        1 ''a''
      = Inr \<lparr>lock_table = [''a'' \<mapsto> []], txn_waits = [1 \<mapsto> 0], ready_txns = []\<rparr>
   \<and> \<not> no_empty_queue
        \<lparr>lock_table = [''a'' \<mapsto> []], txn_waits = [1 \<mapsto> (0 :: counter)], ready_txns = []\<rparr>
   \<and> no_empty_queue (A_run (LockManager_new :: string LockManager)
        [WriteLock 1 ''a'', WriteLock 1 ''b'', WriteLock 2 ''a'', WriteLock 2 ''b'', Release 2 ''a''])
   \<and> lock_table (A_run (LockManager_new :: string LockManager)
        [WriteLock 1 ''a'', WriteLock 1 ''b'', WriteLock 2 ''a'', WriteLock 2 ''b'', Release 2 ''a'',
         Release 1 ''b'']) ''b'' = Some []
   \<and> \<not> no_empty_queue (A_run (LockManager_new :: string LockManager)
        [WriteLock 1 ''a'', WriteLock 1 ''b'', WriteLock 2 ''a'', WriteLock 2 ''b'', Release 2 ''a'',
         Release 1 ''b''])"
proof -
  have b: "lock_table (A_run (LockManager_new :: string LockManager)
        [WriteLock 1 ''a'', WriteLock 1 ''b'', WriteLock 2 ''a'', WriteLock 2 ''b'', Release 2 ''a'',
         Release 1 ''b'']) ''b'' = Some []"
    by (simp add: A_defs Let_def)
  then have "\<not> no_empty_queue (A_run (LockManager_new :: string LockManager)
        [WriteLock 1 ''a'', WriteLock 1 ''b'', WriteLock 2 ''a'', WriteLock 2 ''b'', Release 2 ''a'',
         Release 1 ''b''])"
    unfolding no_empty_queue_def by blast
  moreover have "\<not> no_empty_queue
        \<lparr>lock_table = [''a'' \<mapsto> []], txn_waits = [1 \<mapsto> (0 :: counter)], ready_txns = []\<rparr>"
    by (simp add: no_empty_queue_def)
  moreover have "no_empty_queue (A_run (LockManager_new :: string LockManager)
        [WriteLock 1 ''a'', WriteLock 1 ''b'', WriteLock 2 ''a'', WriteLock 2 ''b'', Release 2 ''a''])"
    by (simp add: A_defs Let_def no_empty_queue_def)
  moreover have "no_empty_queue (snd (LockManagerB_ReadLock (LockManager_new :: string LockManager) 1 ''a''))"
    by (simp add: B_defs no_empty_queue_def)
  moreover have "LockManagerB_Release (snd (LockManagerB_ReadLock (LockManager_new :: string LockManager) 1 ''a''))
        1 ''a''
      = Inr \<lparr>lock_table = [''a'' \<mapsto> []], txn_waits = [1 \<mapsto> 0], ready_txns = []\<rparr>"
    by (simp add: B_defs)
  ultimately show ?thesis using b by (intro conjI)
qed

text \<open>
  The holder 1 of \<open>''a''\<close> releases it. Alone in the deque: Variant A deletes the entry,
  Variant B keeps the key with an empty deque, which \<open>Status\<close> reports as unlocked. With
  transaction 2 waiting behind it: Variant A keeps the deque, with 2 at its front.
\<close>

theorem empty_queue_deleted_amended_witness:
  "no_empty_queue (snd (LockManagerA_WriteLock (LockManager_new :: string LockManager) 1 ''a''))
   \<and> lock_table (LockManagerA_Release
        (snd (LockManagerA_WriteLock (LockManager_new :: string LockManager) 1 ''a'')) 1 ''a'') ''a''
      = None
   \<and> no_empty_queue (LockManagerA_Release
        (snd (LockManagerA_WriteLock (LockManager_new :: string LockManager) 1 ''a'')) 1 ''a'')
   \<and> LockManagerB_Release
        (snd (LockManagerA_WriteLock (LockManager_new :: string LockManager) 1 ''a'')) 1 ''a''
      = Inr \<lparr>lock_table = [''a'' \<mapsto> []], txn_waits = [1 \<mapsto> 0], ready_txns = []\<rparr>
   \<and> LockManagerB_Status
        \<lparr>lock_table = [''a'' \<mapsto> []], txn_waits = [1 \<mapsto> (0 :: counter)], ready_txns = []\<rparr> ''a''
      = (UNLOCKED, [])
   \<and> no_empty_queue (A_run (LockManager_new :: string LockManager)
        [WriteLock 1 ''a'', WriteLock 2 ''a'', Release 1 ''a''])
   \<and> lock_table (A_run (LockManager_new :: string LockManager)
        [WriteLock 1 ''a'', WriteLock 2 ''a'', Release 1 ''a'']) ''a''
      = Some [\<lparr>mode = EXCLUSIVE, txn_of = 2\<rparr>]"
proof -
  let ?lm1 = "snd (LockManagerA_WriteLock (LockManager_new :: string LockManager) 1 ''a'')"
  let ?lm2 = "\<lparr>lock_table = [''a'' \<mapsto> []], txn_waits = [1 \<mapsto> (0 :: counter)], ready_txns = []\<rparr>
    :: string LockManager"
  let ?lm3 = "A_run (LockManager_new :: string LockManager) [WriteLock 1 ''a'', WriteLock 2 ''a'']"
  note t1 = empty_queue_deleted_amended [where lm = ?lm1 and txn = 1 and key = "''a''"]
  note t2 = empty_queue_deleted_amended [where lm = ?lm2 and txn = 1 and key = "''a''"]
  note t3 = empty_queue_deleted_amended [where lm = ?lm3 and txn = 1 and key = "''a''"]
  have q1: "lock_table ?lm1 ''a'' = Some [\<lparr>mode = EXCLUSIVE, txn_of = 1\<rparr>]
      \<and> txn_of \<lparr>mode = EXCLUSIVE, txn_of = 1\<rparr> = 1"
    by (simp add: A_defs)
  have inv1: "no_empty_queue ?lm1"
    by (simp add: A_defs no_empty_queue_def)
  have tail1: "\<forall>front rest. lock_table ?lm1 ''a'' = Some (front # rest) \<and> txn_of front = 1 \<and> rest \<noteq> []
      \<longrightarrow> (\<exists>r \<in> set rest. txn_waits ?lm1 (txn_of r) \<noteq> None)"
    by (simp add: A_defs)
  have b1: "LockManagerB_Release ?lm1 1 ''a'' = Inr ?lm2"
    by (simp add: A_defs B_defs)
  have q2: "lock_table ?lm2 ''a'' = Some []"
    by simp
  have inv3: "no_empty_queue ?lm3"
    by (simp add: A_defs Let_def no_empty_queue_def)
  have tail3: "\<forall>front rest. lock_table ?lm3 ''a'' = Some (front # rest) \<and> txn_of front = 1 \<and> rest \<noteq> []
      \<longrightarrow> (\<exists>r \<in> set rest. txn_waits ?lm3 (txn_of r) \<noteq> None)"
    by (simp add: A_defs Let_def)
  have "lock_table (LockManagerA_Release ?lm1 1 ''a'') = (lock_table ?lm1)(''a'' := None)"
    by (rule t1 [THEN conjunct2, THEN conjunct1, THEN spec, THEN mp, OF q1])
  then have c2: "lock_table (LockManagerA_Release ?lm1 1 ''a'') ''a'' = None"
    by simp
  have c3: "no_empty_queue (LockManagerA_Release ?lm1 1 ''a'')"
    by (rule t1 [THEN conjunct2, THEN conjunct2, THEN conjunct1, THEN mp, OF conjI [OF inv1 tail1]])
  have c5: "LockManagerB_Status ?lm2 ''a'' = (UNLOCKED, [])"
    by (rule t2 [THEN conjunct2, THEN conjunct2, THEN conjunct2, THEN conjunct2, THEN mp,
          OF q2, THEN conjunct2])
  have "no_empty_queue (LockManagerA_Release ?lm3 1 ''a'')"
    by (rule t3 [THEN conjunct2, THEN conjunct2, THEN conjunct1, THEN mp, OF conjI [OF inv3 tail3]])
  then have c6: "no_empty_queue (A_run (LockManager_new :: string LockManager)
        [WriteLock 1 ''a'', WriteLock 2 ''a'', Release 1 ''a''])"
    by simp
  have c7: "lock_table (A_run (LockManager_new :: string LockManager)
        [WriteLock 1 ''a'', WriteLock 2 ''a'', Release 1 ''a'']) ''a''
      = Some [\<lparr>mode = EXCLUSIVE, txn_of = 2\<rparr>]"
    by (simp add: A_defs Let_def)
  from inv1 c2 c3 b1 c5 c6 c7 show ?thesis by (intro conjI)
qed

section \<open>Wait counters below zero\<close>

text \<open>
  C1. Variant B, from a new lock manager: after \<open>ReadLock(1, a)\<close> and \<open>ReadLock(2, a)\<close> both
  readers are granted and the counter of 2 is 0; \<open>Release(1, a)\<close> then finds 2 among
  the owners of \<open>''a''\<close>, finds its counter in the map and decrements it to -1. Variant A,
  from a new lock manager: 2 waits behind 1 on \<open>''a''\<close> and is granted \<open>''b''\<close> at once,
  which resets its counter to 0; \<open>Release(1, a)\<close> then makes 2 the front of \<open>''a''\<close> and
  decrements its counter to -1, and 2 is not appended to the ready deque. (The counter
  \<open>- 1\<close> is the word that \<open>sint\<close> reads as -1.)
\<close>

theorem wait_counter_negative:
  "B_run (LockManager_new :: string LockManager) [ReadLock 1 ''a'', ReadLock 2 ''a'']
     = Inr \<lparr>lock_table = [''a'' \<mapsto> [\<lparr>mode = SHARED, txn_of = 1\<rparr>, \<lparr>mode = SHARED, txn_of = 2\<rparr>]],
            txn_waits = [1 \<mapsto> 0, 2 \<mapsto> 0], ready_txns = []\<rparr>
   \<and> B_run (LockManager_new :: string LockManager)
       [ReadLock 1 ''a'', ReadLock 2 ''a'', Release 1 ''a'']
     = Inr \<lparr>lock_table = [''a'' \<mapsto> [\<lparr>mode = SHARED, txn_of = 2\<rparr>]],
            txn_waits = [1 \<mapsto> 0, 2 \<mapsto> - 1], ready_txns = []\<rparr>
   \<and> txn_waits (A_run (LockManager_new :: string LockManager)
       [WriteLock 1 ''a'', WriteLock 2 ''a'', WriteLock 2 ''b'']) 2 = Some 0
   \<and> txn_waits (A_run (LockManager_new :: string LockManager)
       [WriteLock 1 ''a'', WriteLock 2 ''a'', WriteLock 2 ''b'', Release 1 ''a'']) 2 = Some (- 1)
   \<and> ready_txns (A_run (LockManager_new :: string LockManager)
       [WriteLock 1 ''a'', WriteLock 2 ''a'', WriteLock 2 ''b'', Release 1 ''a'']) = []
   \<and> map_option sint (txn_waits (A_run (LockManager_new :: string LockManager)
       [WriteLock 1 ''a'', WriteLock 2 ''a'', WriteLock 2 ''b'', Release 1 ''a'']) 2) = Some (- 1)
   \<and> sint (- 1 :: counter) = - 1"
  by (simp add: A_defs B_defs Let_def)

section \<open>Appends to the ready deque\<close>




























text \<open>
  Why the bound: the decrement of \<open>Release\<close> wraps. With the counter of transaction 2 at
  the least value, which is not positive, one \<open>Release\<close> by the holder in front of it
  leaves the greatest value, which is positive.
\<close>

lemma no_pending_not_kept:
  "no_pending [2 \<mapsto> - (2 ^ 31)] 2
   \<and> txn_waits (LockManagerA_Release
        \<lparr>lock_table = [''a'' \<mapsto> [\<lparr>mode = EXCLUSIVE, txn_of = 1\<rparr>, \<lparr>mode = EXCLUSIVE, txn_of = 2\<rparr>]],
         txn_waits = [2 \<mapsto> - (2 ^ 31)], ready_txns = []\<rparr> 1 ''a'') 2 = Some (2 ^ 31 - 1)
   \<and> sint (2 ^ 31 - 1 :: counter) = 2 ^ 31 - 1"
  by (simp add: no_pending_def LockManagerA_Release_def)

end
